theory Spec2Isabelle
  imports Complex_Main "HOL-Library.AList"
begin

section \<open>Vectors of the host geometry kernel\<close>

text \<open>
  The scripts compute with the host's \<open>FreeCAD.Vector\<close>. Coordinates are modelled as real
  numbers, so every operation below is the exact counterpart of the host's operation of the
  same name. The literals \<open>1e-6\<close>, \<open>1e-4\<close>, \<open>0.001\<close> and \<open>0.999\<close> of the scripts are written
  as fractions.
\<close>

datatype Vector = Vector (vx: real) (vy: real) (vz: real)

definition add :: "Vector \<Rightarrow> Vector \<Rightarrow> Vector" where
  "add a b = Vector (vx a + vx b) (vy a + vy b) (vz a + vz b)"

definition sub :: "Vector \<Rightarrow> Vector \<Rightarrow> Vector" where
  "sub a b = Vector (vx a - vx b) (vy a - vy b) (vz a - vz b)"

definition multiply :: "Vector \<Rightarrow> real \<Rightarrow> Vector" where
  "multiply a s = Vector (vx a * s) (vy a * s) (vz a * s)"

definition dot :: "Vector \<Rightarrow> Vector \<Rightarrow> real" where
  "dot a b = vx a * vx b + vy a * vy b + vz a * vz b"

definition cross :: "Vector \<Rightarrow> Vector \<Rightarrow> Vector" where
  "cross a b = Vector (vy a * vz b - vz a * vy b)
                      (vz a * vx b - vx a * vz b)
                      (vx a * vy b - vy a * vx b)"

definition Length :: "Vector \<Rightarrow> real" where
  "Length a = sqrt (dot a a)"

text \<open>
  \<open>normalize_v\<close> divides by the length; a vector of length 0 is left as it is (every call
  in the scripts is guarded by a test that the length is positive).
\<close>

definition normalize_v :: "Vector \<Rightarrow> Vector" where
  "normalize_v a = (if Length a \<noteq> 0 \<and> Length a \<noteq> 1
                  then Vector (vx a / Length a) (vy a / Length a) (vz a / Length a)
                  else a)"

text \<open>\<open>def is_close(p1, p2, tol=1e-4): return (p1 - p2).Length < tol\<close>\<close>

definition is_close :: "Vector \<Rightarrow> Vector \<Rightarrow> real \<Rightarrow> bool" where
  "is_close p1 p2 tol = (Length (sub p1 p2) < tol)"

section \<open>Plane estimator\<close>

text \<open>
  The index triples \<open>i < j < k\<close> in the order in which the three nested \<open>for\<close> loops of
  \<open>calculate_robust_plane_normal_and_placement\<close> visit them.
\<close>

definition triples :: "nat \<Rightarrow> (nat \<times> nat \<times> nat) list" where
  "triples n = concat (map (\<lambda>i. concat (map (\<lambda>j. map (\<lambda>k. (i, j, k)) [j + 1..<n]) [i + 1..<n])) [0..<n])"

definition triple_cross :: "Vector list \<Rightarrow> nat \<times> nat \<times> nat \<Rightarrow> Vector" where
  "triple_cross vectors t =
     (case t of (i, j, k) \<Rightarrow>
        cross (sub (vectors ! j) (vectors ! i)) (sub (vectors ! k) (vectors ! i)))"

text \<open>
  One pass of the loop body on the pair \<open>(best_normal, best_magnitude)\<close>; \<open>best_normal\<close>
  starts as \<open>None\<close>.
\<close>

definition best_step :: "Vector option \<times> real \<Rightarrow> Vector \<Rightarrow> Vector option \<times> real" where
  "best_step best n =
     (if Length n > snd best then (Some (normalize_v n), Length n) else best)"

definition best_of :: "Vector list \<Rightarrow> Vector option \<times> real" where
  "best_of ns = foldl best_step (None, 0) ns"

definition centroid :: "Vector list \<Rightarrow> Vector" where
  "centroid vertices = multiply (foldl add (Vector 0 0 0) vertices) (1 / real (length vertices))"

text \<open>
  \<open>calculate_robust_plane_normal_and_placement(self, vertices)\<close>; the attribute
  \<open>self.edge_mass_center\<close> is the first argument.
\<close>

definition calculate_robust_plane_normal_and_placement ::
    "Vector \<Rightarrow> Vector list \<Rightarrow> Vector \<times> Vector" where
  "calculate_robust_plane_normal_and_placement edge_mass_center vertices =
     (if length vertices < 3 then (Vector 0 0 1, Vector 0 0 0)
      else
        let center = centroid vertices;
            vectors = map (\<lambda>v. sub v center) vertices;
            found = fst (best_of (map (triple_cross vectors) (triples (length vectors))));
            best_normal = (case found of None \<Rightarrow> Vector 0 0 1 | Some n \<Rightarrow> n);
            delta = sub center edge_mass_center
        in (if Length delta > 1 / 1000000 \<and> dot (normalize_v delta) best_normal < 0
            then multiply best_normal (- 1) else best_normal,
            center))"

section \<open>Placement builder\<close>

text \<open>
  The three ways in which \<open>create_robust_placement\<close> builds a host rotation:
  \<open>FreeCAD.Rotation()\<close>, \<open>FreeCAD.Rotation(axis, degrees)\<close> and
  \<open>FreeCAD.Rotation(from, to)\<close>.
\<close>

datatype Rotation =
    Rotation_identity
  | Rotation_axis_angle Vector real
  | Rotation_from_to Vector Vector

record Placement =
  Base :: Vector
  Rotation :: Rotation

definition create_robust_placement :: "Vector \<Rightarrow> Vector \<Rightarrow> Placement" where
  "create_robust_placement normal center =
     (let normal = (if Length normal > 1 / 1000000 then normalize_v normal else Vector 0 0 1);
          z_axis = Vector 0 0 1;
          rotation =
            (if \<bar>dot normal z_axis\<bar> > 999 / 1000
             then (if vz normal > 0 then Rotation_identity
                   else Rotation_axis_angle (Vector 1 0 0) 180)
             else Rotation_from_to z_axis normal)
      in \<lparr>Base = center, Rotation = rotation\<rparr>)"

text \<open>
  Host semantics of applying a rotation to a vector (\<open>Rotation.multVec\<close>). A rotation about
  a unit axis \<open>k\<close> by the angle \<open>t\<close> (in radians) is Rodrigues' formula. The rotation from
  one direction to another turns about their cross product by the angle between them; for
  parallel directions it is the identity, for opposite directions a half turn about an axis
  perpendicular to them.
\<close>

definition rotate_about :: "Vector \<Rightarrow> real \<Rightarrow> Vector \<Rightarrow> Vector" where
  "rotate_about k t v =
     add (add (multiply v (cos t)) (multiply (cross k v) (sin t)))
         (multiply k (dot k v * (1 - cos t)))"

definition perpendicular :: "Vector \<Rightarrow> Vector" where
  "perpendicular u =
     (if Length (cross u (Vector 1 0 0)) = 0 then cross u (Vector 0 1 0)
      else cross u (Vector 1 0 0))"

fun multVec :: "Rotation \<Rightarrow> Vector \<Rightarrow> Vector" where
  "multVec Rotation_identity v = v"
| "multVec (Rotation_axis_angle axis degrees) v =
     rotate_about (normalize_v axis) (degrees * pi / 180) v"
| "multVec (Rotation_from_to a b) v =
     (let u = normalize_v a; w = normalize_v b in
      if Length (cross u w) = 0
      then (if dot u w > 0 then v else rotate_about (normalize_v (perpendicular u)) pi v)
      else rotate_about (normalize_v (cross u w)) (arccos (dot u w)) v)"

section \<open>Coplanar edge selection\<close>

text \<open>
  An edge is the list of the points of its \<open>Vertexes\<close>; a face is given by the two
  attributes the script reads. The sub-element names of the selection are taken as already
  resolved to the faces and edges they denote.
\<close>

type_synonym Edge = "Vector list"

record Face =
  Surface_Axis :: Vector
  CenterOfMass :: Vector

datatype py_error = ValueError | IndexError | HostError

text \<open>
  A handler that reports an error in the panel and returns, or an exception that leaves it.
\<close>

datatype failure = Reported string | Raised py_error

text \<open>
  The plane of \<open>select_coplanar_edges\<close>, as the pair \<open>(plane_normal, plane_point)\<close>:
  from the first selected face, or else from the first two selected edges.
\<close>

definition selected_plane :: "Face list \<Rightarrow> Edge list \<Rightarrow> failure + Vector \<times> Vector" where
  "selected_plane faces selected_edges =
     (case faces of
        face # _ \<Rightarrow> Inr (Surface_Axis face, CenterOfMass face)
      | [] \<Rightarrow>
        if length selected_edges \<ge> 2 then
          (case selected_edges ! 0 of
             [v1, v2] \<Rightarrow>
               (case filter (\<lambda>p. \<not> is_close p v1 (1 / 10000) \<and> \<not> is_close p v2 (1 / 10000))
                       (selected_edges ! 1) of
                  [] \<Rightarrow> Inl (Reported ''[Error] Could not define a valid plane from selected edges.'')
                | v3 # _ \<Rightarrow>
                    let plane_normal = cross (sub v2 v1) (sub v3 v1) in
                    if Length plane_normal < 1 / 1000000
                    then Inl (Reported ''[Error] Edges are colinear; cannot define plane.'')
                    else Inr (plane_normal, v1))
           | _ \<Rightarrow> Inl (Raised ValueError))
        else Inl (Reported ''[Error] Select either a face or two edges.''))"

text \<open>
  The nested \<open>is_coplanar(edge)\<close>; unpacking \<open>v1, v2\<close> raises when the edge does not have
  exactly two vertices.
\<close>

definition is_coplanar :: "Vector \<Rightarrow> Vector \<Rightarrow> Edge \<Rightarrow> failure + bool" where
  "is_coplanar plane_point plane_normal edge =
     (case edge of
        [v1, v2] \<Rightarrow>
          Inr (list_all (\<lambda>pt. \<bar>dot (sub pt plane_point) plane_normal\<bar> < 1 / 1000) [v1, v2])
      | _ \<Rightarrow> Inl (Raised ValueError))"

text \<open>\<open>coplanar_edges = [edge for edge in obj.Shape.Edges if is_coplanar(edge)]\<close>\<close>

fun coplanar_edges :: "Vector \<Rightarrow> Vector \<Rightarrow> Edge list \<Rightarrow> failure + Edge list" where
  "coplanar_edges plane_point plane_normal [] = Inr []"
| "coplanar_edges plane_point plane_normal (edge # edges) =
     (case is_coplanar plane_point plane_normal edge of
        Inl err \<Rightarrow> Inl err
      | Inr keep \<Rightarrow>
          (case coplanar_edges plane_point plane_normal edges of
             Inl err \<Rightarrow> Inl err
           | Inr rest \<Rightarrow> Inr (if keep then edge # rest else rest)))"

definition select_coplanar_edges ::
    "bool \<Rightarrow> Face list \<Rightarrow> Edge list \<Rightarrow> Edge list \<Rightarrow> failure + Edge list" where
  "select_coplanar_edges selection faces selected_edges shape_edges =
     (if \<not> selection then Inl (Reported ''[Error] Select a face or two edges first.'')
      else case selected_plane faces selected_edges of
             Inl err \<Rightarrow> Inl err
           | Inr (plane_normal, plane_point) \<Rightarrow> coplanar_edges plane_point plane_normal shape_edges)"

section \<open>Sketch synthesis\<close>

text \<open>
  The host sketch object, as far as the script uses it: the line segments with their
  construction flag, the constraints, and the constraints moved to the virtual space.
  \<open>addGeometry\<close> and \<open>addConstraint\<close> return the index of the new element, which is the
  number of elements before the call.
\<close>

datatype Constraint = Block nat | Coincident nat nat nat nat

record Sketch =
  Geometry :: "(Vector \<times> Vector \<times> bool) list"
  Constraints :: "Constraint list"
  VirtualSpace :: "nat list"

text \<open>
  Host calls of \<open>create_sketch_from_selection\<close> that can raise. \<open>ResolveTarget\<close> stands
  for the creation of the destination sketch for the chosen option (creating or fetching the
  body, dropping the sketch into it, attaching it).
\<close>

datatype host_call =
    AddGeometry Vector Vector
  | AddConstraint Constraint
  | SetVirtualSpace nat
  | ResolveTarget string

text \<open>
  The host: which calls raise, and the map
  \<open>final_sketch.getGlobalPlacement().inverse().multVec\<close> of the destination sketch that the
  host resolves for the chosen option and the placement given to it.
\<close>

record Host =
  raises :: "host_call \<Rightarrow> bool"
  global_to_local :: "string \<Rightarrow> Placement \<Rightarrow> Vector \<Rightarrow> Vector"

datatype warning =
    Skipped_degenerate_edge Vector
  | Failed_coincident Vector
  | Failed_virtual_space nat

text \<open>Lines appended to the panel's \<open>info_display\<close>.\<close>

datatype message =
    Error_no_document
  | Error_no_edges
  | Info_cancelled
  | Error_failed
  | Warning_visibility nat
  | Success
  | Info_added nat
  | Error_incomplete

definition tolerance :: real where
  "tolerance = 1 / 1000"

text \<open>
  \<open>vertex_map\<close> is a Python dictionary from coordinate triples to lists of
  \<open>(geo_index, vertex_id)\<close>: an association list in insertion order.
\<close>

type_synonym vertex_map = "(Vector \<times> (nat \<times> nat) list) list"

text \<open>
  The body of \<open>for pt, vertex_id in [(start_global, 1), (end_global, 2)]\<close>: the first key
  within \<open>tolerance\<close> of the point receives the reference, otherwise the point becomes a
  new key.
\<close>

definition register_vertex :: "vertex_map \<Rightarrow> Vector \<Rightarrow> nat \<times> nat \<Rightarrow> vertex_map" where
  "register_vertex vm pt ref =
     (case find (\<lambda>k. is_close pt k tolerance) (map fst vm) of
        Some found_key \<Rightarrow> AList.map_entry found_key (\<lambda>refs. refs @ [ref]) vm
      | None \<Rightarrow> AList.update pt [ref] vm)"

record emission =
  final_sketch :: Sketch
  block_constraints :: "nat list"
  vertex_map :: vertex_map
  console :: "warning list"

definition start_emission :: emission where
  "start_emission =
     \<lparr>final_sketch = \<lparr>Geometry = [], Constraints = [], VirtualSpace = []\<rparr>,
      block_constraints = [], vertex_map = [], console = []\<rparr>"

text \<open>One pass of \<open>for edge in edges\<close>.\<close>

definition emit_edge ::
    "(host_call \<Rightarrow> bool) \<Rightarrow> (Vector \<Rightarrow> Vector) \<Rightarrow> emission \<Rightarrow> Edge \<Rightarrow> py_error + emission" where
  "emit_edge raising to_local st edge =
     (if edge = [] then Inl IndexError
      else
        let start_global = hd edge; end_global = last edge in
        if is_close start_global end_global tolerance
        then Inr (st\<lparr>console := console st @ [Skipped_degenerate_edge start_global]\<rparr>)
        else
          let start_local = to_local start_global; end_local = to_local end_global in
          if raising (AddGeometry start_local end_local) then Inl HostError
          else
            let sketch = final_sketch st;
                geo_index = length (Geometry sketch);
                sketch = sketch\<lparr>Geometry := Geometry sketch @ [(start_local, end_local, True)]\<rparr>;
                vm = register_vertex (vertex_map st) start_global (geo_index, 1);
                vm = register_vertex vm end_global (geo_index, 2)
            in if raising (AddConstraint (Block geo_index)) then Inl HostError
               else
                 let constraint_idx = length (Constraints sketch);
                     sketch = sketch\<lparr>Constraints := Constraints sketch @ [Block geo_index]\<rparr>
                 in Inr (st\<lparr>final_sketch := sketch,
                            block_constraints := block_constraints st @ [constraint_idx],
                            vertex_map := vm\<rparr>))"

fun emit_edges ::
    "(host_call \<Rightarrow> bool) \<Rightarrow> (Vector \<Rightarrow> Vector) \<Rightarrow> emission \<Rightarrow> Edge list \<Rightarrow> py_error + emission" where
  "emit_edges raising to_local st [] = Inr st"
| "emit_edges raising to_local st (edge # edges) =
     (case emit_edge raising to_local st edge of
        Inl err \<Rightarrow> Inl err
      | Inr st' \<Rightarrow> emit_edges raising to_local st' edges)"

text \<open>
  The coincidence loop. Its state is the sketch, the counter \<open>coincident_added\<close> and the
  console; a rejected constraint is caught and logged.
\<close>

type_synonym coincidence = "Sketch \<times> nat \<times> warning list"

definition add_coincident ::
    "(host_call \<Rightarrow> bool) \<Rightarrow> Vector \<Rightarrow> nat \<times> nat \<Rightarrow> coincidence \<Rightarrow> nat \<times> nat \<Rightarrow> coincidence" where
  "add_coincident raising pt_key first st nxt =
     (case st of (sketch, coincident_added, warnings) \<Rightarrow>
        let c = Coincident (fst first) (snd first) (fst nxt) (snd nxt) in
        if raising (AddConstraint c)
        then (sketch, coincident_added, warnings @ [Failed_coincident pt_key])
        else (sketch\<lparr>Constraints := Constraints sketch @ [c]\<rparr>, coincident_added + 1, warnings))"

definition coincident_group ::
    "(host_call \<Rightarrow> bool) \<Rightarrow> coincidence \<Rightarrow> Vector \<times> (nat \<times> nat) list \<Rightarrow> coincidence" where
  "coincident_group raising st entry =
     (case entry of (pt_key, refs) \<Rightarrow>
        if length refs > 1
        then foldl (add_coincident raising pt_key (hd refs)) st (tl refs)
        else st)"

definition add_coincidences :: "(host_call \<Rightarrow> bool) \<Rightarrow> coincidence \<Rightarrow> vertex_map \<Rightarrow> coincidence" where
  "add_coincidences raising st vm = foldl (coincident_group raising) st vm"

text \<open>\<open>for idx in block_constraints\<close>: hide each block constraint, logging a failure.\<close>

definition hide_block ::
    "(host_call \<Rightarrow> bool) \<Rightarrow> Sketch \<times> message list \<times> warning list \<Rightarrow> nat
       \<Rightarrow> Sketch \<times> message list \<times> warning list" where
  "hide_block raising st idx =
     (case st of (sketch, info, warnings) \<Rightarrow>
        if raising (SetVirtualSpace idx)
        then (sketch, info @ [Warning_visibility idx], warnings @ [Failed_virtual_space idx])
        else (sketch\<lparr>VirtualSpace := VirtualSpace sketch @ [idx]\<rparr>, info, warnings))"

text \<open>
  The vertex list handed to the plane estimator: every vertex of every edge, without the
  points within the default tolerance \<open>1e-4\<close> of an earlier one.
\<close>

definition unique_vertices :: "Vector list \<Rightarrow> Vector list" where
  "unique_vertices all_vertices =
     foldl (\<lambda>unique p. if list_all (\<lambda>q. \<not> is_close p q (1 / 10000)) unique
                         then unique @ [p] else unique) [] all_vertices"

datatype transaction = Not_opened | Committed | Aborted

text \<open>
  What one run of \<open>create_sketch_from_selection\<close> leaves behind: the fate of the
  transaction, the sketch that persists in the document, the number of coincident
  constraints added, the lines written to the panel and, for a run that reaches the commit,
  the warnings printed to the console.
\<close>

record outcome =
  transaction :: transaction
  sketch_created :: "Sketch option"
  coincident_added :: nat
  info_display :: "message list"
  warnings :: "warning list"

definition aborted :: "message list \<Rightarrow> outcome" where
  "aborted info =
     \<lparr>transaction = Aborted, sketch_created = None, coincident_added = 0,
      info_display = info @ [Error_incomplete], warnings = []\<rparr>"

text \<open>
  \<open>create_sketch_from_selection\<close>. Arguments: the host, \<open>self.edge_mass_center\<close>, whether
  there is an active document, the edges of the selection, and the answer \<open>(item, ok)\<close> of
  the placement dialog.
\<close>

definition create_sketch_from_selection ::
    "Host \<Rightarrow> Vector \<Rightarrow> bool \<Rightarrow> Edge list \<Rightarrow> string \<times> bool \<Rightarrow> outcome" where
  "create_sketch_from_selection host edge_mass_center doc edges answer =
     (if \<not> doc then
        \<lparr>transaction = Not_opened, sketch_created = None, coincident_added = 0,
         info_display = [Error_no_document], warnings = []\<rparr>
      else if edges = [] then aborted [Error_no_edges]
      else
        let vertices = unique_vertices (concat edges);
            estimate = calculate_robust_plane_normal_and_placement edge_mass_center vertices;
            placement = create_robust_placement (fst estimate) (snd estimate);
            item = fst answer; ok = snd answer
        in if \<not> ok \<or> item = [] then aborted [Info_cancelled]
           else if raises host (ResolveTarget item) then aborted [Error_failed]
           else
             case emit_edges (raises host) (global_to_local host item placement)
                    start_emission edges of
               Inl err \<Rightarrow> aborted [Error_failed]
             | Inr st \<Rightarrow>
                 let joined = add_coincidences (raises host)
                                (final_sketch st, 0, console st) (vertex_map st);
                     hidden = foldl (hide_block (raises host))
                                (fst joined, [], snd (snd joined)) (block_constraints st)
                 in \<lparr>transaction = Committed,
                     sketch_created = Some (fst hidden),
                     coincident_added = fst (snd joined),
                     info_display = fst (snd hidden) @ [Success, Info_added (fst (snd joined))],
                     warnings = snd (snd hidden)\<rparr>)"

section \<open>Emission loop of the earlier revision\<close>





section \<open>Specifications to compare the loops with\<close>


text \<open>
  Specification of the vertex groups, to compare the vertex map with: every reference
  \<open>(geo_index, vertex_id)\<close> stored under a key denotes the start (\<open>vertex_id = 1\<close>) or the
  end (\<open>vertex_id = 2\<close>) of one of the edges that were given a segment, and that endpoint
  is within \<open>tolerance\<close> of the key.
\<close>

definition within_tolerance :: "Edge list \<Rightarrow> vertex_map \<Rightarrow> bool" where
  "within_tolerance emitted vm =
     (\<forall>entry\<in>set vm. \<forall>r\<in>set (snd entry).
        fst r < length emitted \<and>
        (snd r = 1 \<and> is_close (hd (emitted ! fst r)) (fst entry) tolerance \<or>
         snd r = 2 \<and> is_close (last (emitted ! fst r)) (fst entry) tolerance))"

section \<open>Properties of the plane estimator\<close>

lemma dot_self_nonneg: "0 \<le> dot a a"
  by (simp add: dot_def)

lemma Length_nonneg: "0 \<le> Length a"
  by (simp add: Length_def dot_self_nonneg)

lemma Length_less_sq: "Length a < t \<longleftrightarrow> 0 < t \<and> dot a a < t\<^sup>2"
proof (cases "0 < t")
  case True
  have "Length a < t \<longleftrightarrow> sqrt (dot a a) < sqrt (t\<^sup>2)"
    using True by (simp add: Length_def)
  then show ?thesis using True by (simp only: real_sqrt_less_iff) simp
next
  case False
  then show ?thesis using Length_nonneg [of a] by auto
qed

lemma Length_less_iff: "Length a < t \<longleftrightarrow> 0 < t \<and> dot a a < t * t"
  by (simp add: Length_less_sq power2_eq_square)




lemma Length_normalize: "Length a \<noteq> 0 \<Longrightarrow> Length (normalize_v a) = 1"
proof -
  assume nz: "Length a \<noteq> 0"
  let ?l = "Length a"
  have pos: "0 < ?l" using nz Length_nonneg [of a] by simp
  have sq: "?l\<^sup>2 = dot a a" by (simp add: Length_def dot_self_nonneg)
  show ?thesis
  proof (cases "?l = 1")
    case True
    then show ?thesis by (simp add: normalize_v_def)
  next
    case False
    have "dot (normalize_v a) (normalize_v a) = dot a a / ?l\<^sup>2"
      using nz False by (simp add: normalize_v_def dot_def power2_eq_square add_divide_distrib)
    also have "\<dots> = 1" using sq [symmetric] pos by simp
    finally show ?thesis by (simp add: Length_def)
  qed
qed








lemma foldl_best_step_unchanged:
  "\<forall>n\<in>set ns. Length n \<le> snd b \<Longrightarrow> foldl best_step b ns = b"
  by (induction ns arbitrary: b) (simp_all add: best_step_def)

lemma foldl_best_step_found:
  "\<exists>n\<in>set ns. snd b < Length n \<Longrightarrow>
   \<exists>n\<in>set ns. foldl best_step b ns = (Some (normalize_v n), Length n)"
proof (induction ns arbitrary: b)
  case Nil
  then show ?case by simp
next
  case (Cons m ns)
  show ?case
  proof (cases "\<exists>n\<in>set ns. snd (best_step b m) < Length n")
    case True
    from Cons.IH [OF True] show ?thesis by auto
  next
    case False
    then have le: "\<forall>n\<in>set ns. Length n \<le> snd (best_step b m)" by (auto simp: not_less)
    then have same: "foldl best_step (best_step b m) ns = best_step b m"
      by (rule foldl_best_step_unchanged)
    have "snd b < Length m"
    proof (rule ccontr)
      assume "\<not> snd b < Length m"
      then have "best_step b m = b" and "Length m \<le> snd b" by (simp_all add: best_step_def)
      with le Cons.prems show False by (auto simp: not_less)
    qed
    then have "best_step b m = (Some (normalize_v m), Length m)" by (simp add: best_step_def)
    with same show ?thesis by simp
  qed
qed







lemma best_of_none:
  "fst (best_of ns) = None \<Longrightarrow> \<forall>n\<in>set ns. Length n = 0"
proof (rule ccontr)
  assume none: "fst (best_of ns) = None" and "\<not> (\<forall>n\<in>set ns. Length n = 0)"
  then obtain n where "n \<in> set ns" "Length n \<noteq> 0" by blast
  then have "\<exists>n\<in>set ns. snd (None :: Vector option, 0 :: real) < Length n"
    using Length_nonneg [of n] by (intro bexI [of _ n]) auto
  from foldl_best_step_found [OF this] none show False by (auto simp: best_of_def)
qed













section \<open>Properties of the coplanar edge selection\<close>

lemma is_close_iff:
  "is_close p q tol \<longleftrightarrow> 0 < tol \<and> dot (sub p q) (sub p q) < tol * tol"
  by (simp add: is_close_def Length_less_iff)

lemma Length_times_less: "0 < c \<Longrightarrow> Length a * c < 1 \<longleftrightarrow> dot a a * (c * c) < 1"
proof -
  assume c: "0 < c"
  have "Length a * c < 1 \<longleftrightarrow> Length a < 1 / c" using c by (simp add: pos_less_divide_eq)
  also have "\<dots> \<longleftrightarrow> dot a a < (1 / c) * (1 / c)" using c by (simp add: Length_less_iff)
  also have "\<dots> \<longleftrightarrow> dot a a * (c * c) < 1" using c by (simp add: pos_less_divide_eq)
  finally show ?thesis .
qed

lemma two_vertices: "length (edge :: Edge) = 2 \<Longrightarrow> \<exists>v1 v2. edge = [v1, v2]"
  by (cases edge; cases "tl edge") auto

lemma is_coplanar_two:
  "is_coplanar plane_point plane_normal [v1, v2] =
     Inr (\<bar>dot (sub v1 plane_point) plane_normal\<bar> < 1 / 1000 \<and>
          \<bar>dot (sub v2 plane_point) plane_normal\<bar> < 1 / 1000)"
  by (simp add: is_coplanar_def)

text \<open>
  C7 (as amended). For every sequence of edges with two vertices each and every reference
  plane, the classifier returns exactly the edges both of whose endpoints pass the
  plane-membership test at the fixed tolerance of the script,
  \<open>|dot(point - planePoint, normal)| < 0.001\<close>, in the order of the input; it is a function
  of its arguments alone, and the empty edge list gives the empty result.
\<close>

theorem coplanar_edges_filter:
  assumes "\<forall>edge\<in>set edges. length edge = 2"
  shows "coplanar_edges plane_point plane_normal edges =
           Inr (filter (\<lambda>edge. \<bar>dot (sub (edge ! 0) plane_point) plane_normal\<bar> < 1 / 1000 \<and>
                              \<bar>dot (sub (edge ! 1) plane_point) plane_normal\<bar> < 1 / 1000) edges) \<and>
         coplanar_edges plane_point plane_normal [] = Inr []"
proof -
  have "coplanar_edges plane_point plane_normal edges =
           Inr (filter (\<lambda>edge. \<bar>dot (sub (edge ! 0) plane_point) plane_normal\<bar> < 1 / 1000 \<and>
                              \<bar>dot (sub (edge ! 1) plane_point) plane_normal\<bar> < 1 / 1000) edges)"
    using assms
  proof (induction edges)
    case Nil
    show ?case by simp
  next
    case (Cons edge edges)
    from Cons.prems obtain v1 v2 where e: "edge = [v1, v2]"
      using two_vertices [of edge] by auto
    from Cons.prems have "\<forall>edge\<in>set edges. length edge = 2" by simp
    from Cons.IH [OF this] show ?case
      by (simp add: e is_coplanar_two)
  qed
  then show ?thesis by simp
qed

text \<open>
  Two edges against the plane \<open>z = 0\<close>: the second has only its first endpoint on the plane
  and is left out.
\<close>

theorem coplanar_edges_filter_witness:
  "length [Vector 0 0 0, Vector 1 0 0] = 2 \<and> length [Vector 1 0 0, Vector 1 0 5] = 2 \<and>
   coplanar_edges (Vector 0 0 0) (Vector 0 0 1)
     [[Vector 0 0 0, Vector 1 0 0], [Vector 1 0 0, Vector 1 0 5]] =
     Inr [[Vector 0 0 0, Vector 1 0 0]]"
proof -
  let ?es = "[[Vector 0 0 0, Vector 1 0 0], [Vector 1 0 0, Vector 1 0 5]]"
  have h: "\<forall>edge\<in>set ?es. length edge = 2" by simp
  from coplanar_edges_filter [OF h, of "Vector 0 0 0" "Vector 0 0 1"]
  have "coplanar_edges (Vector 0 0 0) (Vector 0 0 1) ?es =
      Inr (filter (\<lambda>edge. \<bar>dot (sub (edge ! 0) (Vector 0 0 0)) (Vector 0 0 1)\<bar> < 1 / 1000 \<and>
                         \<bar>dot (sub (edge ! 1) (Vector 0 0 0)) (Vector 0 0 1)\<bar> < 1 / 1000) ?es)"
    by (rule conjunct1)
  then have "coplanar_edges (Vector 0 0 0) (Vector 0 0 1) ?es = Inr [[Vector 0 0 0, Vector 1 0 0]]"
    by (simp add: dot_def sub_def)
  then show ?thesis by simp
qed

text \<open>
  The tolerance is not an argument: an edge at the height \<open>0.005\<close> above the plane, whose
  endpoints pass the membership test at the tolerance \<open>0.01\<close>, is left out all the same.
\<close>

theorem fixed_tolerance_counterexample:
  "list_all (\<lambda>pt. \<bar>dot (sub pt (Vector 0 0 0)) (Vector 0 0 1)\<bar> < 1 / 100)
     [Vector 0 0 (1 / 200), Vector 1 0 (1 / 200)] \<and>
   coplanar_edges (Vector 0 0 0) (Vector 0 0 1) [[Vector 0 0 (1 / 200), Vector 1 0 (1 / 200)]] =
     Inr []"
  by (simp add: is_coplanar_def sub_def dot_def)

text \<open>
  C6 (as amended). A plane produced by the face / edge-pair entry point has as its normal
  either the surface axis of the selected face, as the host supplies it, or the cross product
  \<open>(v2 - v1) \<times> (v3 - v1)\<close> of the two selected edges, as computed and of length at least
  \<open>1e-6\<close>; the plane-membership test is evaluated against this normal as it is.
\<close>

theorem selected_plane_normal:
  assumes "selected_plane faces selected_edges = Inr (plane_normal, plane_point)"
  shows "(faces \<noteq> [] \<and> plane_normal = Surface_Axis (hd faces) \<and>
          plane_point = CenterOfMass (hd faces) \<or>
          faces = [] \<and> 2 \<le> length selected_edges \<and>
          (\<exists>v1 v2 v3. selected_edges ! 0 = [v1, v2] \<and> v3 \<in> set (selected_edges ! 1) \<and>
             plane_normal = cross (sub v2 v1) (sub v3 v1) \<and> plane_point = v1 \<and>
             1 / 1000000 \<le> Length plane_normal)) \<and>
         select_coplanar_edges True faces selected_edges shape_edges =
           coplanar_edges plane_point plane_normal shape_edges"
proof (cases faces)
  case (Cons face rest)
  with assms show ?thesis
    by (simp add: selected_plane_def select_coplanar_edges_def)
next
  case Nil
  from assms Nil have two: "2 \<le> length selected_edges"
    by (simp add: selected_plane_def split: if_splits)
  from assms Nil obtain v1 v2 where e0: "selected_edges ! 0 = [v1, v2]"
    by (simp add: selected_plane_def split: if_splits list.splits)
  define cands where "cands = filter (\<lambda>p. \<not> is_close p v1 (1 / 10000) \<and> \<not> is_close p v2 (1 / 10000))
              (selected_edges ! 1)"
  have sp: "selected_plane [] selected_edges =
      (case cands of
         [] \<Rightarrow> Inl (Reported ''[Error] Could not define a valid plane from selected edges.'')
       | v3 # _ \<Rightarrow>
           if Length (cross (sub v2 v1) (sub v3 v1)) < 1 / 1000000
           then Inl (Reported ''[Error] Edges are colinear; cannot define plane.'')
           else Inr (cross (sub v2 v1) (sub v3 v1), v1))"
    unfolding selected_plane_def cands_def using two e0 by (simp add: Let_def cong: list.case_cong)
  from assms Nil sp obtain v3 rest where c': "cands = v3 # rest"
    by (cases cands) simp_all
  from assms Nil have "(if Length (cross (sub v2 v1) (sub v3 v1)) < 1 / 1000000
           then Inl (Reported ''[Error] Edges are colinear; cannot define plane.'')
           else Inr (cross (sub v2 v1) (sub v3 v1), v1)) = Inr (plane_normal, plane_point)"
    by (simp add: sp c')
  then have r: "plane_normal = cross (sub v2 v1) (sub v3 v1)" "plane_point = v1"
      "\<not> Length plane_normal < 1 / 1000000"
    by (auto split: if_splits)
  note c = c' [unfolded cands_def]
  have "v3 \<in> set (filter (\<lambda>p. \<not> is_close p v1 (1 / 10000) \<and> \<not> is_close p v2 (1 / 10000))
              (selected_edges ! 1))"
    unfolding c by simp
  then have "v3 \<in> set (selected_edges ! 1)" by simp
  moreover from r(3) have "1 / 1000000 \<le> Length plane_normal" by (simp only: not_less)
  moreover have "select_coplanar_edges True faces selected_edges shape_edges =
           coplanar_edges plane_point plane_normal shape_edges"
    using assms by (simp add: select_coplanar_edges_def)
  ultimately show ?thesis
    apply (intro conjI disjI2)
          apply (rule Nil)
         apply (rule two)
        apply (rule exI [of _ v1], rule exI [of _ v2], rule exI [of _ v3])
        apply (simp add: e0 r(1,2))
    apply assumption
    done
qed

text \<open>Two unit edges at a right angle in the plane \<open>z = 0\<close>.\<close>

theorem selected_plane_normal_witness:
  "selected_plane [] [[Vector 0 0 0, Vector 1 0 0], [Vector 1 0 0, Vector 1 1 0]] =
     Inr (Vector 0 0 1, Vector 0 0 0) \<and>
   select_coplanar_edges True [] [[Vector 0 0 0, Vector 1 0 0], [Vector 1 0 0, Vector 1 1 0]] [] =
     coplanar_edges (Vector 0 0 0) (Vector 0 0 1) []"
proof -
  have h: "selected_plane [] [[Vector 0 0 0, Vector 1 0 0], [Vector 1 0 0, Vector 1 1 0]] =
     Inr (Vector 0 0 1, Vector 0 0 0)"
    by (simp add: selected_plane_def is_close_iff Length_times_less sub_def dot_def cross_def)
  from selected_plane_normal [OF h, of "[]"] h show ?thesis by (intro conjI) (rule h, rule conjunct2)
qed

text \<open>
  Two edges of length 2 at a right angle give the normal \<open>(0,0,4)\<close> of length 4, and an edge
  at the height \<open>0.0005\<close> above that plane fails the membership test.
\<close>

theorem unnormalized_edge_plane_counterexample:
  "selected_plane [] [[Vector 0 0 0, Vector 2 0 0], [Vector 0 0 0, Vector 0 2 0]] =
     Inr (Vector 0 0 4, Vector 0 0 0) \<and>
   Length (Vector 0 0 4) = 4 \<and>
   is_coplanar (Vector 0 0 0) (Vector 0 0 4) [Vector 0 0 (1 / 2000), Vector 1 0 (1 / 2000)] =
     Inr False"
proof -
  have "Length (Vector 0 0 4) = 4"
    using real_sqrt_abs [of 4] by (simp add: Length_def dot_def power2_eq_square)
  moreover have "selected_plane [] [[Vector 0 0 0, Vector 2 0 0], [Vector 0 0 0, Vector 0 2 0]] =
     Inr (Vector 0 0 4, Vector 0 0 0)"
    by (simp add: selected_plane_def is_close_iff Length_times_less sub_def dot_def cross_def)
  moreover have "is_coplanar (Vector 0 0 0) (Vector 0 0 4)
      [Vector 0 0 (1 / 2000), Vector 1 0 (1 / 2000)] = Inr False"
    by (simp add: is_coplanar_def sub_def dot_def)
  ultimately show ?thesis by (intro conjI)
qed

section \<open>Properties of the placement builder\<close>

lemma Length_z_axis: "Length (Vector 0 0 1) = 1"
  by (simp add: Length_def dot_def)

lemma normalize_v_unit: "Length a = 1 \<Longrightarrow> normalize_v a = a"
  by (simp add: normalize_v_def)

lemma normalize_v_eq: "Length a \<noteq> 0 \<Longrightarrow>
    normalize_v a = Vector (vx a / Length a) (vy a / Length a) (vz a / Length a)"
  by (cases a) (simp add: normalize_v_def)

lemma dot_z_axis: "dot a (Vector 0 0 1) = vz a"
  by (simp add: dot_def)

lemma Length_one_sq: "Length a = 1 \<Longrightarrow> (vx a)\<^sup>2 + (vy a)\<^sup>2 + (vz a)\<^sup>2 = 1"
proof -
  assume "Length a = 1"
  then have "(Length a)\<^sup>2 = 1" by simp
  then have "dot a a = 1" by (simp add: Length_def dot_self_nonneg)
  then show ?thesis by (simp add: dot_def power2_eq_square)
qed

lemma half_turn_about_x: "rotate_about (Vector 1 0 0) pi (Vector 0 0 1) = Vector 0 0 (- 1)"
  by (simp add: rotate_about_def add_def multiply_def cross_def dot_def)

text \<open>The shortest arc from the z axis to a unit vector that is not parallel to it.\<close>

lemma from_z_axis_to:
  assumes unit: "Length n = 1" and np: "\<bar>vz n\<bar> < 1"
  shows "multVec (Rotation_from_to (Vector 0 0 1) n) (Vector 0 0 1) = n"
proof -
  define a b c where "a = vx n" and "b = vy n" and "c = vz n"
  have n: "n = Vector a b c" by (simp add: a_def b_def c_def)
  have sq: "a\<^sup>2 + b\<^sup>2 + c\<^sup>2 = 1" using Length_one_sq [OF unit] by (simp add: a_def b_def c_def)
  have c1: "c\<^sup>2 < 1" using np by (simp add: c_def abs_square_less_1)
  define s where "s = sqrt (1 - c\<^sup>2)"
  have spos: "0 < s" using c1 by (simp add: s_def)
  have s2: "s\<^sup>2 = a\<^sup>2 + b\<^sup>2" using sq c1 by (simp add: s_def)
  have cr: "cross (Vector 0 0 1) n = Vector (- b) a 0" by (simp add: n cross_def)
  have lcr: "Length (Vector (- b) a 0) = s"
  proof -
    have "dot (Vector (- b) a 0) (Vector (- b) a 0) = 1 - c\<^sup>2"
      using sq by (simp add: dot_def power2_eq_square)
    then show ?thesis by (simp add: Length_def s_def)
  qed
  have k: "normalize_v (Vector (- b) a 0) = Vector (- b / s) (a / s) 0"
    using lcr spos by (simp add: normalize_v_eq)
  have cosa: "cos (arccos c) = c" using np by (simp add: c_def cos_arccos_abs)
  have sina: "sin (arccos c) = s"
    using np by (simp add: s_def c_def sin_arccos_abs)
  have "multVec (Rotation_from_to (Vector 0 0 1) n) (Vector 0 0 1) =
        rotate_about (Vector (- b / s) (a / s) 0) (arccos c) (Vector 0 0 1)"
    using spos unit
    by (simp add: normalize_v_unit Length_z_axis cr lcr k Let_def dot_def) (simp add: n)
  also have "\<dots> = Vector a b c"
    using spos by (simp add: rotate_about_def cosa sina add_def multiply_def cross_def dot_def)
  finally show ?thesis by (simp add: n)
qed


lemma unit_or_default:
  "Length (if Length normal > 1 / 1000000 then normalize_v normal else Vector 0 0 1) = 1"
  by (simp add: Length_z_axis Length_normalize)

text \<open>
  C5 (as amended). With \<open>n\<close> the normalized input normal, or \<open>(0,0,1)\<close> when the input's
  length is at most \<open>1e-6\<close>: the placement has the given origin; its rotation is the identity
  when \<open>|dot(n,(0,0,1))| > 0.999\<close> and \<open>n.z > 0\<close>, and applied to world Z it yields
  \<open>(0,0,1)\<close>; it is the half turn about world X when \<open>|dot(n,(0,0,1))| > 0.999\<close> and
  \<open>n.z \<le> 0\<close>, and applied to world Z it yields \<open>(0,0,-1)\<close>; otherwise it is the shortest-arc
  rotation from world Z to \<open>n\<close>, and applied to world Z it yields \<open>n\<close>.
\<close>

theorem create_robust_placement_rotation:
  "let n = (if Length normal > 1 / 1000000 then normalize_v normal else Vector 0 0 1);
       p = create_robust_placement normal center
   in Base p = center \<and>
      (\<bar>dot n (Vector 0 0 1)\<bar> > 999 / 1000 \<and> vz n > 0 \<longrightarrow>
         Rotation p = Rotation_identity \<and>
         multVec (Rotation p) (Vector 0 0 1) = Vector 0 0 1) \<and>
      (\<bar>dot n (Vector 0 0 1)\<bar> > 999 / 1000 \<and> vz n \<le> 0 \<longrightarrow>
         Rotation p = Rotation_axis_angle (Vector 1 0 0) 180 \<and>
         multVec (Rotation p) (Vector 0 0 1) = Vector 0 0 (- 1)) \<and>
      (\<bar>dot n (Vector 0 0 1)\<bar> \<le> 999 / 1000 \<longrightarrow>
         Rotation p = Rotation_from_to (Vector 0 0 1) n \<and>
         multVec (Rotation p) (Vector 0 0 1) = n)"
proof -
  define n where "n = (if Length normal > 1 / 1000000 then normalize_v normal else Vector 0 0 1)"
  define p where "p = create_robust_placement normal center"
  have unit: "Length n = 1" unfolding n_def by (rule unit_or_default)
  have rot: "Rotation p =
      (if \<bar>dot n (Vector 0 0 1)\<bar> > 999 / 1000
       then (if vz n > 0 then Rotation_identity else Rotation_axis_angle (Vector 1 0 0) 180)
       else Rotation_from_to (Vector 0 0 1) n)"
    by (simp add: p_def n_def create_robust_placement_def Let_def)
  have base: "Base p = center"
    by (simp add: p_def create_robust_placement_def Let_def)
  have x: "normalize_v (Vector 1 0 0) = Vector 1 0 0"
    by (rule normalize_v_unit) (simp add: Length_def dot_def)
  have b1: "Rotation p = Rotation_identity \<and> multVec (Rotation p) (Vector 0 0 1) = Vector 0 0 1"
    if "\<bar>dot n (Vector 0 0 1)\<bar> > 999 / 1000 \<and> vz n > 0"
    using that by (simp add: rot)
  have b2: "Rotation p = Rotation_axis_angle (Vector 1 0 0) 180 \<and>
      multVec (Rotation p) (Vector 0 0 1) = Vector 0 0 (- 1)"
    if "\<bar>dot n (Vector 0 0 1)\<bar> > 999 / 1000 \<and> vz n \<le> 0"
    using that by (simp add: rot x half_turn_about_x)
  have b3: "Rotation p = Rotation_from_to (Vector 0 0 1) n \<and>
      multVec (Rotation p) (Vector 0 0 1) = n"
    if h: "\<bar>dot n (Vector 0 0 1)\<bar> \<le> 999 / 1000"
  proof -
    from h have "\<bar>vz n\<bar> < 1" by (simp add: dot_z_axis)
    from from_z_axis_to [OF unit this] h show ?thesis by (simp add: rot)
  qed
  from base b1 b2 b3 show ?thesis
    unfolding Let_def n_def [symmetric] p_def [symmetric] by blast
qed

lemma Length_2: "Length (Vector 0 0 2) = 2"
  using real_sqrt_abs [of 2] by (simp add: Length_def dot_def power2_eq_square)

lemma Length_3: "Length (Vector 0 0 (- 3)) = 3"
  using real_sqrt_abs [of 3] by (simp add: Length_def dot_def power2_eq_square)

lemma Length_x: "Length (Vector 1 0 0) = 1"
  by (simp add: Length_def dot_def)

text \<open>The normals \<open>(0,0,2)\<close>, \<open>(0,0,-3)\<close> and \<open>(1,0,0)\<close>, one for each branch.\<close>

theorem create_robust_placement_rotation_witness:
  "Rotation (create_robust_placement (Vector 0 0 2) (Vector 5 6 7)) = Rotation_identity \<and>
   Rotation (create_robust_placement (Vector 0 0 (- 3)) (Vector 5 6 7)) =
     Rotation_axis_angle (Vector 1 0 0) 180 \<and>
   multVec (Rotation (create_robust_placement (Vector 0 0 (- 3)) (Vector 5 6 7))) (Vector 0 0 1) =
     Vector 0 0 (- 1) \<and>
   multVec (Rotation (create_robust_placement (Vector 1 0 0) (Vector 5 6 7))) (Vector 0 0 1) =
     Vector 1 0 0"
proof -
  have n1: "(if Length (Vector 0 0 2) > 1 / 1000000 then normalize_v (Vector 0 0 2)
             else Vector 0 0 1) = Vector 0 0 1"
    by (simp add: Length_2 normalize_v_def)
  have n2: "(if Length (Vector 0 0 (- 3)) > 1 / 1000000 then normalize_v (Vector 0 0 (- 3))
             else Vector 0 0 1) = Vector 0 0 (- 1)"
    by (simp add: Length_3 normalize_v_def)
  have n3: "(if Length (Vector 1 0 0) > 1 / 1000000 then normalize_v (Vector 1 0 0)
             else Vector 0 0 1) = Vector 1 0 0"
    by (simp add: Length_x normalize_v_def)
  have h1: "\<bar>dot (Vector 0 0 1) (Vector 0 0 1)\<bar> > 999 / 1000 \<and> vz (Vector 0 0 1) > 0"
    by (simp add: dot_def)
  have h2: "\<bar>dot (Vector 0 0 (- 1)) (Vector 0 0 1)\<bar> > 999 / 1000 \<and> vz (Vector 0 0 (- 1)) \<le> 0"
    by (simp add: dot_def)
  have h3: "\<bar>dot (Vector 1 0 0) (Vector 0 0 1)\<bar> \<le> 999 / 1000"
    by (simp add: dot_def)
  have r1: "Rotation (create_robust_placement (Vector 0 0 2) (Vector 5 6 7)) = Rotation_identity"
    using create_robust_placement_rotation [of "Vector 0 0 2" "Vector 5 6 7", unfolded Let_def n1] h1
    by blast
  have r2: "Rotation (create_robust_placement (Vector 0 0 (- 3)) (Vector 5 6 7)) =
      Rotation_axis_angle (Vector 1 0 0) 180 \<and>
    multVec (Rotation (create_robust_placement (Vector 0 0 (- 3)) (Vector 5 6 7))) (Vector 0 0 1) =
      Vector 0 0 (- 1)"
    using create_robust_placement_rotation [of "Vector 0 0 (- 3)" "Vector 5 6 7", unfolded Let_def n2] h2
    by blast
  have r3: "multVec (Rotation (create_robust_placement (Vector 1 0 0) (Vector 5 6 7)))
      (Vector 0 0 1) = Vector 1 0 0"
    using create_robust_placement_rotation [of "Vector 1 0 0" "Vector 5 6 7", unfolded Let_def n3] h3
    by blast
  from r1 r2 r3 show ?thesis by blast
qed

lemma Length_2501: "Length (Vector 100 0 2499) = 2501"
  using real_sqrt_abs [of 2501] by (simp add: Length_def dot_def power2_eq_square)

text \<open>
  The normal \<open>(100,0,2499)\<close> has length 2501 and makes an angle of about 2.3 degrees with
  world Z: the rotation is the identity, which leaves world Z where it is.
\<close>

theorem near_parallel_snap_counterexample:
  "Length (Vector 100 0 2499) > 1 / 1000000 \<and>
   multVec (Rotation (create_robust_placement (Vector 100 0 2499) (Vector 0 0 0))) (Vector 0 0 1)
     \<noteq> normalize_v (Vector 100 0 2499)"
  by (simp add: create_robust_placement_def Let_def Length_2501 normalize_v_def dot_def)

section \<open>Properties of the coincidence synthesis\<close>










section \<open>Properties of the emission loop\<close>

lemma emit_edge_degenerate:
  assumes "edge \<noteq> []" "is_close (hd edge) (last edge) tolerance"
  shows "emit_edge raising to_local st edge =
           Inr (st\<lparr>console := console st @ [Skipped_degenerate_edge (hd edge)]\<rparr>)"
  using assms by (simp add: emit_edge_def Let_def)









lemma register_vertex_eval:
  "register_vertex vm pt ref =
     (case find (\<lambda>k. 0 < tolerance \<and> dot (sub pt k) (sub pt k) < tolerance * tolerance) (map fst vm) of
        Some found_key \<Rightarrow> AList.map_entry found_key (\<lambda>refs. refs @ [ref]) vm
      | None \<Rightarrow> AList.update pt [ref] vm)"
  by (simp add: register_vertex_def is_close_iff)


section \<open>Properties of the vertex groups\<close>

lemma is_close_self: "is_close pt pt tolerance"
  by (simp add: is_close_iff tolerance_def sub_def dot_def)

lemma map_fst_map_entry: "map fst (AList.map_entry k f xs) = map fst xs"
  by (induction xs) auto

lemma update_fresh: "k \<notin> fst ` set xs \<Longrightarrow> AList.update k v xs = xs @ [(k, v)]"
  by (induction xs) auto

lemma set_map_entry:
  "(k, v) \<in> set (AList.map_entry key f xs) \<Longrightarrow>
     (k, v) \<in> set xs \<or> (k = key \<and> (\<exists>v0. (k, v0) \<in> set xs \<and> v = f v0))"
  by (induction xs) (auto split: if_splits)

lemma find_least:
  "i < length xs \<Longrightarrow> P (xs ! i) \<Longrightarrow> (\<forall>j<i. \<not> P (xs ! j)) \<Longrightarrow> find P xs = Some (xs ! i)"
proof (induction xs arbitrary: i)
  case Nil
  then show ?case by simp
next
  case (Cons x xs)
  show ?case
  proof (cases i)
    case 0
    with Cons.prems show ?thesis by simp
  next
    case (Suc n)
    with Cons.prems have "\<not> P x" by auto
    moreover have "find P xs = Some (xs ! n)"
    proof (rule Cons.IH)
      show "n < length xs" using Cons.prems Suc by simp
      show "P (xs ! n)" using Cons.prems Suc by simp
      show "\<forall>j<n. \<not> P (xs ! j)"
      proof (intro allI impI)
        fix j assume "j < n"
        then have "Suc j < i" using Suc by simp
        with Cons.prems(3) have "\<not> P ((x # xs) ! Suc j)" by blast
        then show "\<not> P (xs ! j)" by simp
      qed
    qed
    ultimately show ?thesis using Suc by simp
  qed
qed

lemma map_entry_nth:
  "distinct (map fst xs) \<Longrightarrow> i < length xs \<Longrightarrow>
   AList.map_entry (fst (xs ! i)) f xs = xs[i := (fst (xs ! i), f (snd (xs ! i)))]"
proof (induction xs arbitrary: i)
  case Nil
  then show ?case by simp
next
  case (Cons x xs)
  show ?case
  proof (cases i)
    case 0
    then show ?thesis by (cases x) simp
  next
    case (Suc n)
    with Cons.prems have n: "n < length xs" and d: "distinct (map fst xs)" by simp_all
    from n have "xs ! n \<in> set xs" by (rule nth_mem)
    then have "fst (xs ! n) \<in> fst ` set xs" by (rule imageI)
    moreover from Cons.prems(1) have "fst x \<notin> fst ` set xs" by simp
    ultimately have "fst x \<noteq> fst (xs ! n)" by metis
    with Cons.IH [OF d n] Suc show ?thesis by (cases x) simp
  qed
qed

lemma register_vertex_new:
  assumes "\<forall>k\<in>set (map fst vm). \<not> is_close pt k tolerance"
  shows "register_vertex vm pt ref = vm @ [(pt, [ref])]"
proof -
  from assms have none: "find (\<lambda>k. is_close pt k tolerance) (map fst vm) = None"
    by (simp add: find_None_iff)
  from assms is_close_self [of pt] have "pt \<notin> fst ` set vm" by auto
  with none show ?thesis by (simp add: register_vertex_def update_fresh)
qed

lemma register_vertex_merge:
  assumes "distinct (map fst vm)" "i < length vm" "is_close pt (fst (vm ! i)) tolerance"
    "\<forall>j<i. \<not> is_close pt (fst (vm ! j)) tolerance"
  shows "register_vertex vm pt ref = vm[i := (fst (vm ! i), snd (vm ! i) @ [ref])]"
proof -
  have "find (\<lambda>k. is_close pt k tolerance) (map fst vm) = Some (map fst vm ! i)"
    using assms by (intro find_least) simp_all
  then have "find (\<lambda>k. is_close pt k tolerance) (map fst vm) = Some (fst (vm ! i))"
    using assms(2) by simp
  then show ?thesis
    using map_entry_nth [OF assms(1,2)] by (simp add: register_vertex_def)
qed

lemma register_vertex_keys:
  "map fst (register_vertex vm pt ref) = map fst vm \<or>
   map fst (register_vertex vm pt ref) = map fst vm @ [pt] \<and> pt \<notin> set (map fst vm)"
proof (cases "find (\<lambda>k. is_close pt k tolerance) (map fst vm)")
  case None
  then have no: "\<forall>k\<in>set (map fst vm). \<not> is_close pt k tolerance"
    by (simp add: find_None_iff)
  with is_close_self [of pt] have "pt \<notin> set (map fst vm)" by auto
  with register_vertex_new [OF no] show ?thesis by simp
next
  case (Some k)
  then show ?thesis by (simp add: register_vertex_def map_fst_map_entry)
qed

lemma register_vertex_distinct:
  "distinct (map fst vm) \<Longrightarrow> distinct (map fst (register_vertex vm pt ref))"
  using register_vertex_keys [of vm pt ref] by auto

lemma register_vertex_entries:
  assumes "(k, refs) \<in> set (register_vertex vm pt ref)"
  shows "(k, refs) \<in> set vm \<or>
         (\<exists>refs0. (k, refs0) \<in> set vm \<and> refs = refs0 @ [ref] \<and> is_close pt k tolerance) \<or>
         (k = pt \<and> refs = [ref])"
proof (cases "find (\<lambda>k. is_close pt k tolerance) (map fst vm)")
  case None
  then have "\<forall>k\<in>set (map fst vm). \<not> is_close pt k tolerance"
    by (simp add: find_None_iff)
  from register_vertex_new [OF this] assms show ?thesis by auto
next
  case (Some key)
  then have close: "is_close pt key tolerance" by (auto simp: find_Some_iff)
  from Some assms have "(k, refs) \<in> set (AList.map_entry key (\<lambda>refs. refs @ [ref]) vm)"
    by (simp add: register_vertex_def)
  from set_map_entry [OF this] close show ?thesis by auto
qed


lemma within_tolerance_extend:
  assumes "within_tolerance emitted vm"
  shows "within_tolerance (emitted @ extra) vm"
  unfolding within_tolerance_def
proof (intro ballI)
  fix entry r
  assume "entry \<in> set vm" and "r \<in> set (snd entry)"
  with assms have "fst r < length emitted \<and>
        (snd r = 1 \<and> is_close (hd (emitted ! fst r)) (fst entry) tolerance \<or>
         snd r = 2 \<and> is_close (last (emitted ! fst r)) (fst entry) tolerance)"
    unfolding within_tolerance_def by blast
  then show "fst r < length (emitted @ extra) \<and>
        (snd r = 1 \<and> is_close (hd ((emitted @ extra) ! fst r)) (fst entry) tolerance \<or>
         snd r = 2 \<and> is_close (last ((emitted @ extra) ! fst r)) (fst entry) tolerance)"
    by (auto simp: nth_append)
qed

lemma within_tolerance_register:
  assumes wt: "within_tolerance emitted vm" and g: "g < length emitted"
    and pt: "vid = 1 \<and> pt = hd (emitted ! g) \<or> vid = 2 \<and> pt = last (emitted ! g)"
  shows "within_tolerance emitted (register_vertex vm pt (g, vid))"
  unfolding within_tolerance_def
proof (intro ballI)
  fix entry r
  assume e: "entry \<in> set (register_vertex vm pt (g, vid))" and r: "r \<in> set (snd entry)"
  obtain k refs where entry: "entry = (k, refs)" by (cases entry)
  from e entry have "(k, refs) \<in> set (register_vertex vm pt (g, vid))" by simp
  from register_vertex_entries [OF this]
  consider (old) "(k, refs) \<in> set vm"
    | (merged) refs0 where "(k, refs0) \<in> set vm" "refs = refs0 @ [(g, vid)]"
        "is_close pt k tolerance"
    | (new) "k = pt" "refs = [(g, vid)]"
    by blast
  then show "fst r < length emitted \<and>
        (snd r = 1 \<and> is_close (hd (emitted ! fst r)) (fst entry) tolerance \<or>
         snd r = 2 \<and> is_close (last (emitted ! fst r)) (fst entry) tolerance)"
  proof cases
    case old
    with wt r entry show ?thesis unfolding within_tolerance_def by force
  next
    case merged
    show ?thesis
    proof (cases "r = (g, vid)")
      case True
      with g pt merged(3) entry show ?thesis by auto
    next
      case False
      with r entry merged(2) have "r \<in> set refs0" by simp
      with wt merged(1) entry show ?thesis unfolding within_tolerance_def by force
    qed
  next
    case new
    with r entry have "r = (g, vid)" by simp
    with g pt new(1) entry is_close_self [of pt] show ?thesis by auto
  qed
qed

lemma emit_edge_result:
  assumes "emit_edge raising to_local st edge = Inr st'"
  shows "edge \<noteq> [] \<and>
         (if is_close (hd edge) (last edge) tolerance
          then vertex_map st' = vertex_map st \<and>
               length (Geometry (final_sketch st')) = length (Geometry (final_sketch st))
          else vertex_map st' =
                 register_vertex
                   (register_vertex (vertex_map st) (hd edge)
                      (length (Geometry (final_sketch st)), 1))
                   (last edge) (length (Geometry (final_sketch st)), 2) \<and>
               length (Geometry (final_sketch st')) = Suc (length (Geometry (final_sketch st))))"
  using assms by (auto simp: emit_edge_def Let_def split: if_splits)

lemma emit_edge_invariant:
  assumes step: "emit_edge raising to_local st edge = Inr st'"
    and len: "length (Geometry (final_sketch st)) = length emitted"
    and dist: "distinct (map fst (vertex_map st))"
    and wt: "within_tolerance emitted (vertex_map st)"
  shows "length (Geometry (final_sketch st')) =
           length (emitted @ filter (\<lambda>e. \<not> is_close (hd e) (last e) tolerance) [edge]) \<and>
         distinct (map fst (vertex_map st')) \<and>
         within_tolerance (emitted @ filter (\<lambda>e. \<not> is_close (hd e) (last e) tolerance) [edge])
           (vertex_map st')"
proof (cases "is_close (hd edge) (last edge) tolerance")
  case True
  with emit_edge_result [OF step] len dist wt show ?thesis by simp
next
  case False
  let ?n = "length emitted"
  let ?em = "emitted @ [edge]"
  from emit_edge_result [OF step] False len
  have vm: "vertex_map st' =
      register_vertex (register_vertex (vertex_map st) (hd edge) (?n, 1)) (last edge) (?n, 2)"
    and l: "length (Geometry (final_sketch st')) = Suc ?n" by simp_all
  have w0: "within_tolerance ?em (vertex_map st)"
    using wt by (rule within_tolerance_extend)
  have w1: "within_tolerance ?em (register_vertex (vertex_map st) (hd edge) (?n, 1))"
    using w0 by (rule within_tolerance_register) simp_all
  have w2: "within_tolerance ?em
      (register_vertex (register_vertex (vertex_map st) (hd edge) (?n, 1)) (last edge) (?n, 2))"
    using w1 by (rule within_tolerance_register) simp_all
  have d: "distinct (map fst (vertex_map st'))"
    unfolding vm using dist by (intro register_vertex_distinct)
  from False l d w2 vm show ?thesis by simp
qed

lemma emit_edges_invariant:
  assumes "emit_edges raising to_local st edges = Inr st'"
    and "length (Geometry (final_sketch st)) = length emitted"
    and "distinct (map fst (vertex_map st))"
    and "within_tolerance emitted (vertex_map st)"
  shows "distinct (map fst (vertex_map st')) \<and>
         within_tolerance (emitted @ filter (\<lambda>e. \<not> is_close (hd e) (last e) tolerance) edges)
           (vertex_map st')"
  using assms
proof (induction edges arbitrary: st emitted)
  case Nil
  then show ?case by simp
next
  case (Cons edge edges)
  from Cons.prems(1) obtain s where s: "emit_edge raising to_local st edge = Inr s"
    and rest: "emit_edges raising to_local s edges = Inr st'"
    by (auto split: sum.splits)
  note inv = emit_edge_invariant [OF s Cons.prems(2,3,4)]
  from Cons.IH [OF rest inv [THEN conjunct1] inv [THEN conjunct2, THEN conjunct1]
      inv [THEN conjunct2, THEN conjunct2]]
  show ?case by (cases "is_close (hd edge) (last edge) tolerance") simp_all
qed

text \<open>
  C9. Registering an endpoint scans the keys of the vertex map in insertion order with the
  tolerance test \<open>is_close(pt, key, 0.001)\<close>: when no key passes, the endpoint founds a new
  group with itself as key; otherwise its reference is appended to the group of the first
  key that passes. Consequently, after the emission loop has run from the empty sketch, the
  keys are pairwise different and every reference stored in a group denotes an endpoint
  within the tolerance of that group's key.
\<close>

theorem vertex_groups_within_tolerance:
  "((\<forall>k\<in>set (map fst vm). \<not> is_close pt k tolerance) \<longrightarrow>
      register_vertex vm pt ref = vm @ [(pt, [ref])]) \<and>
   (distinct (map fst vm) \<and> i < length vm \<and> is_close pt (fst (vm ! i)) tolerance \<and>
    (\<forall>j<i. \<not> is_close pt (fst (vm ! j)) tolerance) \<longrightarrow>
      register_vertex vm pt ref = vm[i := (fst (vm ! i), snd (vm ! i) @ [ref])]) \<and>
   (emit_edges raising to_local start_emission edges = Inr st \<longrightarrow>
      distinct (map fst (vertex_map st)) \<and>
      within_tolerance (filter (\<lambda>e. \<not> is_close (hd e) (last e) tolerance) edges)
        (vertex_map st))"
proof (intro conjI impI)
  assume "\<forall>k\<in>set (map fst vm). \<not> is_close pt k tolerance"
  then show "register_vertex vm pt ref = vm @ [(pt, [ref])]" by (rule register_vertex_new)
next
  assume "distinct (map fst vm) \<and> i < length vm \<and> is_close pt (fst (vm ! i)) tolerance \<and>
    (\<forall>j<i. \<not> is_close pt (fst (vm ! j)) tolerance)"
  then show "register_vertex vm pt ref = vm[i := (fst (vm ! i), snd (vm ! i) @ [ref])]"
    by (intro register_vertex_merge) simp_all
next
  assume run: "emit_edges raising to_local start_emission edges = Inr st"
  have "distinct (map fst (vertex_map st)) \<and>
      within_tolerance ([] @ filter (\<lambda>e. \<not> is_close (hd e) (last e) tolerance) edges)
        (vertex_map st)"
    using run by (rule emit_edges_invariant)
      (simp_all add: start_emission_def within_tolerance_def)
  then show "distinct (map fst (vertex_map st))"
    and "within_tolerance (filter (\<lambda>e. \<not> is_close (hd e) (last e) tolerance) edges)
        (vertex_map st)" by simp_all
qed


text \<open>
  A vertex at \<open>(1,0,0)\<close> founds a group; the endpoint \<open>(1,0,0.0005)\<close> of the next edge joins
  it, although its coordinates differ from the key.
\<close>

theorem vertex_groups_within_tolerance_witness:
  "register_vertex [(Vector 0 0 0, [(0, 1)])] (Vector 1 0 0) (0, 2) =
     [(Vector 0 0 0, [(0, 1)])] @ [(Vector 1 0 0, [(0, 2)])] \<and>
   register_vertex [(Vector 0 0 0, [(0, 1)]), (Vector 1 0 0, [(0, 2)])]
       (Vector 1 0 (1 / 2000)) (1, 1) =
     [(Vector 0 0 0, [(0, 1)]), (Vector 1 0 0, [(0, 2), (1, 1)])] \<and>
   emit_edges (\<lambda>call. False) (\<lambda>v. v) start_emission
       [[Vector 0 0 0, Vector 1 0 0], [Vector 1 0 (1 / 2000), Vector 1 1 0]] =
     Inr \<lparr>final_sketch =
            \<lparr>Geometry = [(Vector 0 0 0, Vector 1 0 0, True),
                         (Vector 1 0 (1 / 2000), Vector 1 1 0, True)],
             Constraints = [Block 0, Block 1], VirtualSpace = []\<rparr>,
          block_constraints = [0, 1],
          vertex_map = [(Vector 0 0 0, [(0, 1)]), (Vector 1 0 0, [(0, 2), (1, 1)]),
                        (Vector 1 1 0, [(1, 2)])],
          console = []\<rparr> \<and>
   within_tolerance [[Vector 0 0 0, Vector 1 0 0], [Vector 1 0 (1 / 2000), Vector 1 1 0]]
     [(Vector 0 0 0, [(0, 1)]), (Vector 1 0 0, [(0, 2), (1, 1)]), (Vector 1 1 0, [(1, 2)])]"
proof -
  let ?vm1 = "[(Vector 0 0 0, [(0 :: nat, 1 :: nat)])]"
  let ?vm2 = "[(Vector 0 0 0, [(0 :: nat, 1 :: nat)]), (Vector 1 0 0, [(0, 2)])]"
  let ?edges = "[[Vector 0 0 0, Vector 1 0 0], [Vector 1 0 (1 / 2000), Vector 1 1 0]]"
  let ?st = "\<lparr>final_sketch =
            \<lparr>Geometry = [(Vector 0 0 0, Vector 1 0 0, True),
                         (Vector 1 0 (1 / 2000), Vector 1 1 0, True)],
             Constraints = [Block 0, Block 1], VirtualSpace = []\<rparr>,
          block_constraints = [0, 1],
          vertex_map = [(Vector 0 0 0, [(0, 1)]), (Vector 1 0 0, [(0, 2), (1, 1)]),
                        (Vector 1 1 0, [(1, 2)])],
          console = []\<rparr>"
  have a: "\<forall>k\<in>set (map fst ?vm1). \<not> is_close (Vector 1 0 0) k tolerance"
    by (simp add: is_close_iff tolerance_def sub_def dot_def)
  have b: "distinct (map fst ?vm2) \<and> 1 < length ?vm2 \<and>
      is_close (Vector 1 0 (1 / 2000)) (fst (?vm2 ! 1)) tolerance \<and>
      (\<forall>j<1. \<not> is_close (Vector 1 0 (1 / 2000)) (fst (?vm2 ! j)) tolerance)"
    by (simp add: is_close_iff tolerance_def sub_def dot_def)
  have c: "emit_edges (\<lambda>call. False) (\<lambda>v. v) start_emission ?edges = Inr ?st"
    by (simp add: emit_edge_def Let_def start_emission_def register_vertex_eval is_close_iff
        tolerance_def sub_def dot_def)
  have keep: "filter (\<lambda>e. \<not> is_close (hd e) (last e) tolerance) ?edges = ?edges"
    by (simp add: is_close_iff tolerance_def sub_def dot_def)
  note th = vertex_groups_within_tolerance
  from th [where vm = ?vm1 and pt = "Vector 1 0 0" and ref = "(0, 2)"] a
  have r1: "register_vertex ?vm1 (Vector 1 0 0) (0, 2) = ?vm1 @ [(Vector 1 0 0, [(0, 2)])]"
    by blast
  from th [where vm = ?vm2 and pt = "Vector 1 0 (1 / 2000)" and ref = "(1, 1)" and i = 1] b
  have "register_vertex ?vm2 (Vector 1 0 (1 / 2000)) (1, 1) =
      ?vm2[1 := (fst (?vm2 ! 1), snd (?vm2 ! 1) @ [(1, 1)])]"
    by blast
  then have r2: "register_vertex ?vm2 (Vector 1 0 (1 / 2000)) (1, 1) =
      [(Vector 0 0 0, [(0, 1)]), (Vector 1 0 0, [(0, 2), (1, 1)])]"
    by simp
  from th [where raising = "\<lambda>call. False" and to_local = "\<lambda>v. v" and edges = ?edges
      and st = ?st] c
  have "within_tolerance (filter (\<lambda>e. \<not> is_close (hd e) (last e) tolerance) ?edges)
      (vertex_map ?st)"
    by blast
  then have r3: "within_tolerance ?edges
      [(Vector 0 0 0, [(0, 1)]), (Vector 1 0 0, [(0, 2), (1, 1)]), (Vector 1 1 0, [(1, 2)])]"
    unfolding keep by simp
  from r1 r2 c r3 show ?thesis by (intro conjI)
qed

section \<open>Properties of the transaction\<close>

lemma emit_edge_succeeds:
  "(\<exists>st'. emit_edge raising to_local st edge = Inr st') \<longleftrightarrow>
     edge \<noteq> [] \<and>
     (\<not> is_close (hd edge) (last edge) tolerance \<longrightarrow>
        \<not> raising (AddGeometry (to_local (hd edge)) (to_local (last edge))) \<and>
        \<not> raising (AddConstraint (Block (length (Geometry (final_sketch st))))))"
  by (simp add: emit_edge_def Let_def)

lemma emit_edge_length:
  assumes "emit_edge raising to_local st edge = Inr st'"
  shows "length (Geometry (final_sketch st')) =
         length (Geometry (final_sketch st)) +
         length (filter (\<lambda>e. \<not> is_close (hd e) (last e) tolerance) [edge])"
  using emit_edge_result [OF assms] by (simp split: if_splits)

text \<open>
  The emission loop reaches its end if and only if every edge has a vertex and the host
  accepts the segment and the block constraint of every edge that is not skipped.
\<close>

lemma emit_edges_succeeds:
  "(\<exists>st'. emit_edges raising to_local st edges = Inr st') \<longleftrightarrow>
     (\<forall>e\<in>set edges. e \<noteq> []) \<and>
     (\<forall>i<length (filter (\<lambda>e. \<not> is_close (hd e) (last e) tolerance) edges).
        \<not> raising (AddGeometry
              (to_local (hd (filter (\<lambda>e. \<not> is_close (hd e) (last e) tolerance) edges ! i)))
              (to_local (last (filter (\<lambda>e. \<not> is_close (hd e) (last e) tolerance) edges ! i)))) \<and>
        \<not> raising (AddConstraint (Block (length (Geometry (final_sketch st)) + i))))"
proof (induction edges arbitrary: st)
  case Nil
  show ?case by simp
next
  case (Cons edge edges)
  let ?kept = "filter (\<lambda>e. \<not> is_close (hd e) (last e) tolerance) edges"
  let ?n = "length (Geometry (final_sketch st))"
  let ?rest = "\<lambda>m. (\<forall>e\<in>set edges. e \<noteq> []) \<and>
     (\<forall>i<length ?kept.
        \<not> raising (AddGeometry (to_local (hd (?kept ! i))) (to_local (last (?kept ! i)))) \<and>
        \<not> raising (AddConstraint (Block (m + i))))"
  have split: "(\<exists>st'. emit_edges raising to_local st (edge # edges) = Inr st') \<longleftrightarrow>
      (\<exists>s. emit_edge raising to_local st edge = Inr s \<and>
           (\<exists>st'. emit_edges raising to_local s edges = Inr st'))"
    by (cases "emit_edge raising to_local st edge") simp_all
  show ?case
  proof (cases "is_close (hd edge) (last edge) tolerance")
    case True
    have "(\<exists>s. emit_edge raising to_local st edge = Inr s \<and>
           (\<exists>st'. emit_edges raising to_local s edges = Inr st')) \<longleftrightarrow>
          edge \<noteq> [] \<and> ?rest ?n"
    proof
      assume "\<exists>s. emit_edge raising to_local st edge = Inr s \<and>
           (\<exists>st'. emit_edges raising to_local s edges = Inr st')"
      then obtain s where s: "emit_edge raising to_local st edge = Inr s"
        and r: "\<exists>st'. emit_edges raising to_local s edges = Inr st'" by blast
      from emit_edge_length [OF s] True
      have "length (Geometry (final_sketch s)) = ?n" by simp
      with r Cons.IH [of s] have "?rest ?n" by simp
      moreover from s have "edge \<noteq> []" using emit_edge_succeeds [of raising to_local st edge]
        by blast
      ultimately show "edge \<noteq> [] \<and> ?rest ?n" by blast
    next
      assume a: "edge \<noteq> [] \<and> ?rest ?n"
      with True obtain s where s: "emit_edge raising to_local st edge = Inr s"
        using emit_edge_succeeds [of raising to_local st edge] by blast
      from emit_edge_length [OF s] True
      have "length (Geometry (final_sketch s)) = ?n" by simp
      with a Cons.IH [of s] have "\<exists>st'. emit_edges raising to_local s edges = Inr st'"
        by simp
      with s show "\<exists>s. emit_edge raising to_local st edge = Inr s \<and>
           (\<exists>st'. emit_edges raising to_local s edges = Inr st')" by blast
    qed
    with split True show ?thesis by simp
  next
    case False
    let ?ok = "\<not> raising (AddGeometry (to_local (hd edge)) (to_local (last edge))) \<and>
        \<not> raising (AddConstraint (Block ?n))"
    have "(\<exists>s. emit_edge raising to_local st edge = Inr s \<and>
           (\<exists>st'. emit_edges raising to_local s edges = Inr st')) \<longleftrightarrow>
          edge \<noteq> [] \<and> ?ok \<and> ?rest (Suc ?n)"
    proof
      assume "\<exists>s. emit_edge raising to_local st edge = Inr s \<and>
           (\<exists>st'. emit_edges raising to_local s edges = Inr st')"
      then obtain s where s: "emit_edge raising to_local st edge = Inr s"
        and r: "\<exists>st'. emit_edges raising to_local s edges = Inr st'" by blast
      from emit_edge_length [OF s] False
      have "length (Geometry (final_sketch s)) = Suc ?n" by simp
      with r Cons.IH [of s] have "?rest (Suc ?n)" by simp
      moreover from s False have "edge \<noteq> [] \<and> ?ok"
        using emit_edge_succeeds [of raising to_local st edge] by blast
      ultimately show "edge \<noteq> [] \<and> ?ok \<and> ?rest (Suc ?n)" by blast
    next
      assume a: "edge \<noteq> [] \<and> ?ok \<and> ?rest (Suc ?n)"
      then obtain s where s: "emit_edge raising to_local st edge = Inr s"
        using emit_edge_succeeds [of raising to_local st edge] by blast
      from emit_edge_length [OF s] False
      have "length (Geometry (final_sketch s)) = Suc ?n" by simp
      with a Cons.IH [of s] have "\<exists>st'. emit_edges raising to_local s edges = Inr st'"
        by simp
      with s show "\<exists>s. emit_edge raising to_local st edge = Inr s \<and>
           (\<exists>st'. emit_edges raising to_local s edges = Inr st')" by blast
    qed
    with split False show ?thesis by (simp add: All_less_Suc2) blast
  qed
qed


lemma committed_iff:
  "transaction (create_sketch_from_selection host edge_mass_center doc edges (item, ok)) = Committed
   \<longleftrightarrow>
     doc \<and> edges \<noteq> [] \<and> ok \<and> item \<noteq> [] \<and> \<not> raises host (ResolveTarget item) \<and>
     (\<exists>st. emit_edges (raises host)
        (global_to_local host item
           (create_robust_placement
              (fst (calculate_robust_plane_normal_and_placement edge_mass_center
                      (unique_vertices (concat edges))))
              (snd (calculate_robust_plane_normal_and_placement edge_mass_center
                      (unique_vertices (concat edges))))))
        start_emission edges = Inr st)"
  by (auto simp: create_sketch_from_selection_def Let_def aborted_def split: sum.splits)

lemma emit_edges_all_degenerate:
  assumes "\<forall>e\<in>set edges. e \<noteq> [] \<and> is_close (hd e) (last e) tolerance"
  shows "emit_edges raising to_local st edges =
           Inr (st\<lparr>console := console st @ map (\<lambda>e. Skipped_degenerate_edge (hd e)) edges\<rparr>)"
  using assms
proof (induction edges arbitrary: st)
  case Nil
  show ?case by simp
next
  case (Cons edge edges)
  from Cons.prems have e: "edge \<noteq> []" "is_close (hd edge) (last edge) tolerance"
    and rest: "\<forall>e\<in>set edges. e \<noteq> [] \<and> is_close (hd e) (last e) tolerance" by simp_all
  show ?case
    by (simp add: emit_edge_degenerate [OF e] Cons.IH [OF rest])
qed

text \<open>
  C2 (as amended). The sketch-synthesis operation commits the open transaction if and only
  if there is an active document, the selection contains at least one edge, the user accepts
  a placement option, and no host call raises before the commit: the destination can be
  set up, every edge has a vertex, and the host accepts the segment and the block
  constraint of every edge that is not skipped. The number of segments plays no part: when
  every edge of a non-empty selection is skipped as degenerate, the transaction is committed
  with an empty sketch and success is reported.
\<close>

theorem commit_condition:
  "(let to_local = global_to_local host item
           (create_robust_placement
              (fst (calculate_robust_plane_normal_and_placement edge_mass_center
                      (unique_vertices (concat edges))))
              (snd (calculate_robust_plane_normal_and_placement edge_mass_center
                      (unique_vertices (concat edges)))));
        kept = filter (\<lambda>e. \<not> is_close (hd e) (last e) tolerance) edges
    in transaction (create_sketch_from_selection host edge_mass_center doc edges (item, ok))
         = Committed \<longleftrightarrow>
       doc \<and> edges \<noteq> [] \<and> ok \<and> item \<noteq> [] \<and> \<not> raises host (ResolveTarget item) \<and>
       (\<forall>e\<in>set edges. e \<noteq> []) \<and>
       (\<forall>i<length kept.
          \<not> raises host (AddGeometry (to_local (hd (kept ! i))) (to_local (last (kept ! i)))) \<and>
          \<not> raises host (AddConstraint (Block i)))) \<and>
   (doc \<and> edges \<noteq> [] \<and> ok \<and> item \<noteq> [] \<and> \<not> raises host (ResolveTarget item) \<and>
    (\<forall>e\<in>set edges. e \<noteq> [] \<and> is_close (hd e) (last e) tolerance) \<longrightarrow>
      transaction (create_sketch_from_selection host edge_mass_center doc edges (item, ok))
        = Committed \<and>
      sketch_created (create_sketch_from_selection host edge_mass_center doc edges (item, ok))
        = Some \<lparr>Geometry = [], Constraints = [], VirtualSpace = []\<rparr> \<and>
      info_display (create_sketch_from_selection host edge_mass_center doc edges (item, ok))
        = [Success, Info_added 0])"
proof (rule conjI)
  have "length (Geometry (final_sketch start_emission)) = 0"
    by (simp add: start_emission_def)
  then show "let to_local = global_to_local host item
           (create_robust_placement
              (fst (calculate_robust_plane_normal_and_placement edge_mass_center
                      (unique_vertices (concat edges))))
              (snd (calculate_robust_plane_normal_and_placement edge_mass_center
                      (unique_vertices (concat edges)))));
        kept = filter (\<lambda>e. \<not> is_close (hd e) (last e) tolerance) edges
    in transaction (create_sketch_from_selection host edge_mass_center doc edges (item, ok))
         = Committed \<longleftrightarrow>
       doc \<and> edges \<noteq> [] \<and> ok \<and> item \<noteq> [] \<and> \<not> raises host (ResolveTarget item) \<and>
       (\<forall>e\<in>set edges. e \<noteq> []) \<and>
       (\<forall>i<length kept.
          \<not> raises host (AddGeometry (to_local (hd (kept ! i))) (to_local (last (kept ! i)))) \<and>
          \<not> raises host (AddConstraint (Block i)))"
    unfolding Let_def committed_iff emit_edges_succeeds by simp
next
  show "doc \<and> edges \<noteq> [] \<and> ok \<and> item \<noteq> [] \<and> \<not> raises host (ResolveTarget item) \<and>
    (\<forall>e\<in>set edges. e \<noteq> [] \<and> is_close (hd e) (last e) tolerance) \<longrightarrow>
      transaction (create_sketch_from_selection host edge_mass_center doc edges (item, ok))
        = Committed \<and>
      sketch_created (create_sketch_from_selection host edge_mass_center doc edges (item, ok))
        = Some \<lparr>Geometry = [], Constraints = [], VirtualSpace = []\<rparr> \<and>
      info_display (create_sketch_from_selection host edge_mass_center doc edges (item, ok))
        = [Success, Info_added 0]"
  proof
    assume a: "doc \<and> edges \<noteq> [] \<and> ok \<and> item \<noteq> [] \<and> \<not> raises host (ResolveTarget item) \<and>
      (\<forall>e\<in>set edges. e \<noteq> [] \<and> is_close (hd e) (last e) tolerance)"
    then have deg: "\<forall>e\<in>set edges. e \<noteq> [] \<and> is_close (hd e) (last e) tolerance" by blast
    show "transaction (create_sketch_from_selection host edge_mass_center doc edges (item, ok))
        = Committed \<and>
      sketch_created (create_sketch_from_selection host edge_mass_center doc edges (item, ok))
        = Some \<lparr>Geometry = [], Constraints = [], VirtualSpace = []\<rparr> \<and>
      info_display (create_sketch_from_selection host edge_mass_center doc edges (item, ok))
        = [Success, Info_added 0]"
      using a
      by (simp add: create_sketch_from_selection_def Let_def emit_edges_all_degenerate [OF deg]
          start_emission_def add_coincidences_def)
  qed
qed


text \<open>
  Two degenerate edges with a host that accepts every call, and one proper edge with a host
  that rejects its block constraint.
\<close>

theorem commit_condition_witness:
  "transaction (create_sketch_from_selection
      \<lparr>raises = (\<lambda>call. False), global_to_local = (\<lambda>item placement v. v)\<rparr> (Vector 0 0 0) True
      [[Vector 1 2 3, Vector 1 2 3], [Vector 4 5 6, Vector 4 5 6]]
      (''<Create New Body (PartDesign)>'', True)) = Committed \<and>
   sketch_created (create_sketch_from_selection
      \<lparr>raises = (\<lambda>call. False), global_to_local = (\<lambda>item placement v. v)\<rparr> (Vector 0 0 0) True
      [[Vector 1 2 3, Vector 1 2 3], [Vector 4 5 6, Vector 4 5 6]]
      (''<Create New Body (PartDesign)>'', True)) =
     Some \<lparr>Geometry = [], Constraints = [], VirtualSpace = []\<rparr> \<and>
   transaction (create_sketch_from_selection
      \<lparr>raises = (\<lambda>call. call = AddConstraint (Block 0)),
       global_to_local = (\<lambda>item placement v. v)\<rparr> (Vector 0 0 0) True
      [[Vector 0 0 0, Vector 1 0 0]]
      (''<Create New Body (PartDesign)>'', True)) \<noteq> Committed"
proof -
  let ?quiet = "\<lparr>raises = (\<lambda>call. False), global_to_local = (\<lambda>item placement v. v)\<rparr>"
  let ?strict = "\<lparr>raises = (\<lambda>call. call = AddConstraint (Block 0)),
       global_to_local = (\<lambda>item placement v. v)\<rparr>"
  let ?points = "[[Vector 1 2 3, Vector 1 2 3], [Vector 4 5 6, Vector 4 5 6]]"
  let ?item = "''<Create New Body (PartDesign)>''"
  have h: "True \<and> ?points \<noteq> [] \<and> True \<and> ?item \<noteq> [] \<and> \<not> raises ?quiet (ResolveTarget ?item) \<and>
      (\<forall>e\<in>set ?points. e \<noteq> [] \<and> is_close (hd e) (last e) tolerance)"
    by (simp add: is_close_iff tolerance_def sub_def dot_def)
  from commit_condition [where host = ?quiet and edge_mass_center = "Vector 0 0 0"
      and doc = True and edges = ?points and item = ?item and ok = True,
      THEN conjunct2, rule_format, OF h]
  have r1: "transaction (create_sketch_from_selection ?quiet (Vector 0 0 0) True ?points
        (?item, True)) = Committed \<and>
      sketch_created (create_sketch_from_selection ?quiet (Vector 0 0 0) True ?points
        (?item, True)) = Some \<lparr>Geometry = [], Constraints = [], VirtualSpace = []\<rparr>"
    by blast
  have kept: "filter (\<lambda>e. \<not> is_close (hd e) (last e) tolerance) [[Vector 0 0 0, Vector 1 0 0]] =
      [[Vector 0 0 0, Vector 1 0 0]]"
    by (simp add: is_close_iff tolerance_def sub_def dot_def)
  have r2: "transaction (create_sketch_from_selection ?strict (Vector 0 0 0) True
      [[Vector 0 0 0, Vector 1 0 0]] (?item, True)) \<noteq> Committed"
    using commit_condition [where host = ?strict and edge_mass_center = "Vector 0 0 0"
      and doc = True and edges = "[[Vector 0 0 0, Vector 1 0 0]]" and item = ?item and ok = True,
      THEN conjunct1]
    unfolding Let_def kept by simp
  from r1 r2 show ?thesis by blast
qed

text \<open>
  A selection of one edge with identical endpoints: no segment is created, and the
  transaction is committed with the success message.
\<close>

theorem commit_without_segments_counterexample:
  "transaction (create_sketch_from_selection
      \<lparr>raises = (\<lambda>call. False), global_to_local = (\<lambda>item placement v. v)\<rparr> (Vector 0 0 0) True
      [[Vector 1 2 3, Vector 1 2 3]] (''<Standalone (Part Workbench)>'', True)) = Committed \<and>
   sketch_created (create_sketch_from_selection
      \<lparr>raises = (\<lambda>call. False), global_to_local = (\<lambda>item placement v. v)\<rparr> (Vector 0 0 0) True
      [[Vector 1 2 3, Vector 1 2 3]] (''<Standalone (Part Workbench)>'', True)) =
     Some \<lparr>Geometry = [], Constraints = [], VirtualSpace = []\<rparr> \<and>
   info_display (create_sketch_from_selection
      \<lparr>raises = (\<lambda>call. False), global_to_local = (\<lambda>item placement v. v)\<rparr> (Vector 0 0 0) True
      [[Vector 1 2 3, Vector 1 2 3]] (''<Standalone (Part Workbench)>'', True)) =
     [Success, Info_added 0]"
  by (simp add: create_sketch_from_selection_def Let_def start_emission_def emit_edge_def
      is_close_iff tolerance_def sub_def dot_def add_coincidences_def)

end
